theory Spec2Isabelle
  imports Main "HOL-Library.Word"
begin

section \<open>The dispatcher of \<^verbatim>\<open>switchlike.cpp\<close>\<close>

text \<open>
  The repository is one function template,
  \<^verbatim>\<open>
  template<typename input_type, typename case_type, typename return_type>
  return_type switchlike(
    input_type input,
    std::initializer_list<std::pair<case_type, std::function<return_type()> > > cases,
    std::function<return_type()> default_func = [] (){},
    std::function<bool(input_type, case_type)> predicate
      = [] (input_type a, case_type b){ return b == a; }
  ) {
    for (std::pair<input_type, std::function<return_type()> > caze : cases) {
      if (predicate(input, caze.first) ) {
        return (caze.second )();
      }
    }
    return default_func();
  }
  \<close>
  Its arguments are callables of the caller: each may change the caller's state and each
  may throw. A call of a \<^verbatim>\<open>std::function\<close> is therefore a function from the state before
  the call to an outcome and the state after it; the outcome is \<open>Inr\<close> of the value
  returned or \<open>Inl\<close> of the exception thrown. (An empty \<^verbatim>\<open>std::function\<close> is the callable
  that throws \<^verbatim>\<open>std::bad_function_call\<close> and leaves the state as it is.) Every callable is
  a total HOL function: a call of it returns or throws.
\<close>

type_synonym ('s, 'e, 'a) callable = "'s \<Rightarrow> ('e + 'a) \<times> 's"

text \<open>A function without effects that does not throw, as a callable.\<close>

definition pure1 :: "('a \<Rightarrow> 'b) \<Rightarrow> 'a \<Rightarrow> ('s, 'e, 'b) callable" where
  "pure1 f x s = (Inr (f x), s)"

definition pure2 :: "('a \<Rightarrow> 'b \<Rightarrow> 'c) \<Rightarrow> 'a \<Rightarrow> 'b \<Rightarrow> ('s, 'e, 'c) callable" where
  "pure2 f x y s = (Inr (f x y), s)"

text \<open>
  The loop variable \<^verbatim>\<open>caze\<close> is declared as a pair whose first component has the type
  \<^verbatim>\<open>input_type\<close>, while the elements of \<^verbatim>\<open>cases\<close> are pairs whose first component has
  the type \<^verbatim>\<open>case_type\<close>. So every iteration runs two conversions of the caller's types:
  initialising \<^verbatim>\<open>caze\<close> converts the key from \<^verbatim>\<open>case_type\<close> to \<^verbatim>\<open>input_type\<close>
  (\<open>to_input\<close>, run by the converting constructor of the pair), and passing
  \<^verbatim>\<open>caze.first\<close> as the second argument of \<^verbatim>\<open>predicate\<close> converts it back from
  \<^verbatim>\<open>input_type\<close> to \<^verbatim>\<open>case_type\<close> (\<open>to_case\<close>). For class types both are constructors
  or conversion operators written by the caller, which may have effects and may throw
  like any other callable; they belong to the types the template is instantiated with,
  so they are parameters of the model. For built-in types they are functions of the
  value (\<open>pure1\<close>), and when both types are the same type and copying preserves the
  value they are \<open>pure1 id\<close>.

  The range-based \<^verbatim>\<open>for\<close> is the recursion over the list; the \<^verbatim>\<open>return\<close> inside it
  leaves the loop; an exception thrown by a conversion or by \<^verbatim>\<open>predicate\<close> leaves the
  function, since the body has no handler. The copy of \<^verbatim>\<open>input\<close> into the first
  parameter of \<^verbatim>\<open>predicate\<close> is part of the call of the predicate. Copying the
  \<^verbatim>\<open>std::function\<close> of a case into \<^verbatim>\<open>caze\<close> is taken to succeed and to give a callable
  that behaves like the original.
\<close>

fun switchlike ::
  "('k \<Rightarrow> ('s, 'e, 'i) callable) \<Rightarrow> ('i \<Rightarrow> ('s, 'e, 'k) callable) \<Rightarrow> 'i \<Rightarrow>
   ('k \<times> ('s, 'e, 'r) callable) list \<Rightarrow> ('s, 'e, 'r) callable \<Rightarrow>
   ('i \<Rightarrow> 'k \<Rightarrow> ('s, 'e, bool) callable) \<Rightarrow> ('s, 'e, 'r) callable"
where
  "switchlike to_input to_case input [] default_func predicate s = default_func s"
| "switchlike to_input to_case input (c # cases) default_func predicate s =
     (case to_input (fst c) s of
        (Inl e, s1) \<Rightarrow> (Inl e, s1)
      | (Inr first, s1) \<Rightarrow>
          (let caze = (first, snd c) in
           case to_case (fst caze) s1 of
             (Inl e, s2) \<Rightarrow> (Inl e, s2)
           | (Inr b, s2) \<Rightarrow>
               (case predicate input b s2 of
                  (Inl e, s3) \<Rightarrow> (Inl e, s3)
                | (Inr matched, s3) \<Rightarrow>
                    if matched then (snd caze) s3
                    else switchlike to_input to_case input cases default_func predicate s3)))"

text \<open>
  The default argument of \<^verbatim>\<open>predicate\<close>: \<^verbatim>\<open>[] (input_type a, case_type b){ return b == a; }\<close>.
  \<open>eq\<close> is \<^verbatim>\<open>operator==\<close> with a left operand of the type \<^verbatim>\<open>case_type\<close> and a right
  operand of the type \<^verbatim>\<open>input_type\<close>; it is an operator of the caller's types, so it is
  a callable too.
\<close>

definition default_predicate ::
  "('k \<Rightarrow> 'i \<Rightarrow> ('s, 'e, bool) callable) \<Rightarrow> 'i \<Rightarrow> 'k \<Rightarrow> ('s, 'e, bool) callable"
where
  "default_predicate eq a b = eq b a"

text \<open>
  The default argument of \<^verbatim>\<open>default_func\<close>: \<^verbatim>\<open>[] (){}\<close>. It returns nothing, so it is a
  producer only at the result type \<^verbatim>\<open>void\<close>, which is \<open>unit\<close> here.
\<close>

definition default_default_func :: "('s, 'e, unit) callable" where
  "default_default_func s = (Inr (), s)"

subsection \<open>Observing the calls\<close>

text \<open>
  Which callables a call of \<open>switchlike\<close> invokes, in which order and with which
  arguments, is observed the way the repository's own test observes it: by handing
  \<open>switchlike\<close> callables that record their call before they return. The recording
  callables run the caller's callable on the caller's state and append one event to a
  log that is kept beside that state. \<open>switchlike\<close> itself is unchanged: it is used at
  the state type \<open>'s \<times> event list\<close>. The log records the calls of the predicate and of
  the producers; the conversions run on the caller's state and leave the log as it is.
\<close>

datatype ('i, 'k, 'e, 'r) event =
    PredCall 'i 'k "'e + bool"
  | CaseCall nat "'e + 'r"
  | DefaultCall "'e + 'r"

definition logged_predicate ::
  "('i \<Rightarrow> 'k \<Rightarrow> ('s, 'e, bool) callable) \<Rightarrow>
   'i \<Rightarrow> 'k \<Rightarrow> ('s \<times> ('i, 'k, 'e, 'r) event list, 'e, bool) callable"
where
  "logged_predicate predicate a b sl =
     (case predicate a b (fst sl) of
        (out, s') \<Rightarrow> (out, (s', snd sl @ [PredCall a b out])))"

definition logged_case ::
  "nat \<Rightarrow> ('s, 'e, 'r) callable \<Rightarrow> ('s \<times> ('i, 'k, 'e, 'r) event list, 'e, 'r) callable"
where
  "logged_case n producer sl =
     (case producer (fst sl) of
        (out, s') \<Rightarrow> (out, (s', snd sl @ [CaseCall n out])))"

definition logged_default ::
  "('s, 'e, 'r) callable \<Rightarrow> ('s \<times> ('i, 'k, 'e, 'r) event list, 'e, 'r) callable"
where
  "logged_default default_func sl =
     (case default_func (fst sl) of
        (out, s') \<Rightarrow> (out, (s', snd sl @ [DefaultCall out])))"

definition unlogged ::
  "('a \<Rightarrow> ('s, 'e, 'b) callable) \<Rightarrow> 'a \<Rightarrow> ('s \<times> 'l, 'e, 'b) callable"
where
  "unlogged conversion x sl =
     (case conversion x (fst sl) of
        (out, s') \<Rightarrow> (out, (s', snd sl)))"

text \<open>The producer of the case at position \<open>n\<close> (from 0) records \<open>CaseCall n\<close>.\<close>

fun logged_cases ::
  "nat \<Rightarrow> ('k \<times> ('s, 'e, 'r) callable) list \<Rightarrow>
   ('k \<times> ('s \<times> ('i, 'k, 'e, 'r) event list, 'e, 'r) callable) list"
where
  "logged_cases n [] = []"
| "logged_cases n (c # cases) = (fst c, logged_case n (snd c)) # logged_cases (Suc n) cases"

definition observed ::
  "('k \<Rightarrow> ('s, 'e, 'i) callable) \<Rightarrow> ('i \<Rightarrow> ('s, 'e, 'k) callable) \<Rightarrow> 'i \<Rightarrow>
   ('k \<times> ('s, 'e, 'r) callable) list \<Rightarrow>
   ('s, 'e, 'r) callable \<Rightarrow> ('i \<Rightarrow> 'k \<Rightarrow> ('s, 'e, bool) callable) \<Rightarrow> 's \<Rightarrow>
   ('e + 'r) \<times> 's \<times> ('i, 'k, 'e, 'r) event list"
where
  "observed to_input to_case input cases default_func predicate s =
     switchlike (unlogged to_input) (unlogged to_case) input (logged_cases 0 cases)
       (logged_default default_func) (logged_predicate predicate) (s, [])"

text \<open>The outcome and the log of an observed call.\<close>

definition outcome ::
  "('k \<Rightarrow> ('s, 'e, 'i) callable) \<Rightarrow> ('i \<Rightarrow> ('s, 'e, 'k) callable) \<Rightarrow> 'i \<Rightarrow>
   ('k \<times> ('s, 'e, 'r) callable) list \<Rightarrow>
   ('s, 'e, 'r) callable \<Rightarrow> ('i \<Rightarrow> 'k \<Rightarrow> ('s, 'e, bool) callable) \<Rightarrow> 's \<Rightarrow> 'e + 'r"
where
  "outcome to_input to_case input cases default_func predicate s =
     fst (observed to_input to_case input cases default_func predicate s)"

definition calls ::
  "('k \<Rightarrow> ('s, 'e, 'i) callable) \<Rightarrow> ('i \<Rightarrow> ('s, 'e, 'k) callable) \<Rightarrow> 'i \<Rightarrow>
   ('k \<times> ('s, 'e, 'r) callable) list \<Rightarrow>
   ('s, 'e, 'r) callable \<Rightarrow> ('i \<Rightarrow> 'k \<Rightarrow> ('s, 'e, bool) callable) \<Rightarrow> 's \<Rightarrow>
   ('i, 'k, 'e, 'r) event list"
where
  "calls to_input to_case input cases default_func predicate s =
     snd (snd (observed to_input to_case input cases default_func predicate s))"

text \<open>What an event says: whether it is the call of a producer, and what it threw.\<close>

fun is_producer_call :: "('i, 'k, 'e, 'r) event \<Rightarrow> bool" where
  "is_producer_call (PredCall a b out) = False"
| "is_producer_call (CaseCall n out) = True"
| "is_producer_call (DefaultCall out) = True"

fun thrown :: "('i, 'k, 'e, 'r) event \<Rightarrow> 'e option" where
  "thrown (PredCall a b (Inl e)) = Some e"
| "thrown (PredCall a b (Inr v)) = None"
| "thrown (CaseCall n (Inl e)) = Some e"
| "thrown (CaseCall n (Inr v)) = None"
| "thrown (DefaultCall (Inl e)) = Some e"
| "thrown (DefaultCall (Inr v)) = None"

text \<open>
  What the two conversions can make of a key: \<open>converted\<close> relates a key to a value that
  the predicate can receive for it (both conversions return, in some states), and
  \<open>conversion_throws\<close> relates a key to an exception that one of its two conversions can
  throw.
\<close>

definition converted ::
  "('k \<Rightarrow> ('s, 'e, 'i) callable) \<Rightarrow> ('i \<Rightarrow> ('s, 'e, 'k) callable) \<Rightarrow> 'k \<Rightarrow> 'k \<Rightarrow> bool"
where
  "converted to_input to_case k b =
     (\<exists>t x t'. fst (to_input k t) = Inr x \<and> fst (to_case x t') = Inr b)"

definition conversion_throws ::
  "('k \<Rightarrow> ('s, 'e, 'i) callable) \<Rightarrow> ('i \<Rightarrow> ('s, 'e, 'k) callable) \<Rightarrow> 'k \<Rightarrow> 'e \<Rightarrow> bool"
where
  "conversion_throws to_input to_case k e =
     ((\<exists>t. fst (to_input k t) = Inl e) \<or>
      (\<exists>t x t'. fst (to_input k t) = Inr x \<and> fst (to_case x t') = Inl e))"

text \<open>
  The events of predicate calls that reject, one after the other, the keys they receive:
  \<open>rejected\<close> for the keys \<open>bs\<close> as the predicate receives them, \<open>rejections\<close> for the
  keys \<open>ks\<close> of the cases when the conversions are functions of the value.
\<close>

definition rejected :: "'i \<Rightarrow> 'k list \<Rightarrow> ('i, 'k, 'e, 'r) event list" where
  "rejected input bs = map (\<lambda>b. PredCall input b (Inr False)) bs"

definition rejections ::
  "('k \<Rightarrow> 'i) \<Rightarrow> ('i \<Rightarrow> 'k) \<Rightarrow> 'i \<Rightarrow> 'k list \<Rightarrow> ('i, 'k, 'e, 'r) event list"
where
  "rejections to_input to_case input ks =
     map (\<lambda>k. PredCall input (to_case (to_input k)) (Inr False)) ks"

text \<open>
  The operands of \<^verbatim>\<open>operator==\<close> are observed in the same way: the recording operator
  appends the pair of its left and its right operand.
\<close>

definition logged_eq ::
  "('k \<Rightarrow> 'i \<Rightarrow> ('s, 'e, bool) callable) \<Rightarrow> 'k \<Rightarrow> 'i \<Rightarrow> ('s \<times> ('k \<times> 'i) list, 'e, bool) callable"
where
  "logged_eq eq lhs rhs sl =
     (case eq lhs rhs (fst sl) of
        (out, s') \<Rightarrow> (out, (s', snd sl @ [(lhs, rhs)])))"

text \<open>
  The logs a call can leave, by the way the loop runs from the case at position \<open>n\<close>:
  no case is left and the default producer is called; a conversion of the first key
  throws; the predicate throws on the first key; the predicate returns true on it and
  its producer is called; or the predicate returns false on it and the loop goes on.
\<close>

inductive run_shape ::
  "('k \<Rightarrow> ('s, 'e, 'i) callable) \<Rightarrow> ('i \<Rightarrow> ('s, 'e, 'k) callable) \<Rightarrow>
   ('i \<Rightarrow> 'k \<Rightarrow> ('s, 'e, bool) callable) \<Rightarrow> 'i \<Rightarrow> nat \<Rightarrow>
   ('k \<times> ('s, 'e, 'r) callable) list \<Rightarrow> 'e + 'r \<Rightarrow> ('i, 'k, 'e, 'r) event list \<Rightarrow> bool"
  for to_input to_case predicate input
where
  default_called:
    "run_shape to_input to_case predicate input n [] out [DefaultCall out]"
| conversion_threw:
    "conversion_throws to_input to_case (fst c) e \<Longrightarrow>
     run_shape to_input to_case predicate input n (c # cases) (Inl e) []"
| predicate_threw:
    "converted to_input to_case (fst c) b \<Longrightarrow> fst (predicate input b t) = Inl e \<Longrightarrow>
     run_shape to_input to_case predicate input n (c # cases) (Inl e)
       [PredCall input b (Inl e)]"
| matched:
    "converted to_input to_case (fst c) b \<Longrightarrow> fst (predicate input b t) = Inr True \<Longrightarrow>
     run_shape to_input to_case predicate input n (c # cases) out
       [PredCall input b (Inr True), CaseCall n out]"
| rejected_one:
    "converted to_input to_case (fst c) b \<Longrightarrow> fst (predicate input b t) = Inr False \<Longrightarrow>
     run_shape to_input to_case predicate input (Suc n) cases out log \<Longrightarrow>
     run_shape to_input to_case predicate input n (c # cases) out
       (PredCall input b (Inr False) # log)"

section \<open>Properties of the recording callables\<close>

text \<open>One call of a recording callable: the caller's callable runs, one event is appended.\<close>

lemma logged_predicate_call:
  "logged_predicate p a b (s, l) =
     (fst (p a b s), snd (p a b s), l @ [PredCall a b (fst (p a b s))])"
  by (simp add: logged_predicate_def split: prod.splits)

lemma logged_case_call:
  "logged_case n f (s, l) = (fst (f s), snd (f s), l @ [CaseCall n (fst (f s))])"
  by (simp add: logged_case_def split: prod.splits)

lemma logged_default_call:
  "logged_default d (s, l) = (fst (d s), snd (d s), l @ [DefaultCall (fst (d s))])"
  by (simp add: logged_default_def split: prod.splits)

lemma unlogged_call:
  "unlogged conversion x (s, l) = (fst (conversion x s), snd (conversion x s), l)"
  by (simp add: unlogged_def split: prod.splits)

text \<open>
  Recording changes nothing of what the caller sees: outcome and final state are those of
  the call with the caller's own callables.
\<close>

lemma logged_erase:
  "fst (switchlike (unlogged ti) (unlogged tc) input (logged_cases n cases) (logged_default d)
          (logged_predicate p) (s, l))
     = fst (switchlike ti tc input cases d p s) \<and>
   fst (snd (switchlike (unlogged ti) (unlogged tc) input (logged_cases n cases)
          (logged_default d) (logged_predicate p) (s, l)))
     = snd (switchlike ti tc input cases d p s)"
proof (induction cases arbitrary: n s l)
  case Nil
  show ?case by (simp add: logged_default_call)
next
  case (Cons c cases)
  obtain r1 s1 where c1: "ti (fst c) s = (r1, s1)" by (cases "ti (fst c) s")
  show ?case
  proof (cases r1)
    case (Inl e)
    with c1 show ?thesis by (simp add: unlogged_call)
  next
    case x: (Inr x)
    obtain r2 s2 where c2: "tc x s1 = (r2, s2)" by (cases "tc x s1")
    show ?thesis
    proof (cases r2)
      case (Inl e)
      with c1 x c2 show ?thesis by (simp add: unlogged_call)
    next
      case b: (Inr b)
      obtain r3 s3 where c3: "p input b s2 = (r3, s3)" by (cases "p input b s2")
      show ?thesis
      proof (cases r3)
        case (Inl e)
        with c1 x c2 b c3 show ?thesis
          by (simp add: unlogged_call logged_predicate_call)
      next
        case (Inr m)
        with c1 x c2 b c3 show ?thesis
          by (simp add: unlogged_call logged_predicate_call logged_case_call Cons.IH)
      qed
    qed
  qed
qed

lemma observed_eq:
  "observed ti tc input cases d p s =
     (outcome ti tc input cases d p s, snd (switchlike ti tc input cases d p s),
      calls ti tc input cases d p s)"
  using logged_erase [where ti = ti and tc = tc and input = input and n = 0 and cases = cases
      and d = d and p = p and s = s and l = "[]"]
  by (simp add: observed_def outcome_def calls_def prod_eq_iff)

lemma outcome_eq: "outcome ti tc input cases d p s = fst (switchlike ti tc input cases d p s)"
  using logged_erase [where ti = ti and tc = tc and input = input and n = 0 and cases = cases
      and d = d and p = p and s = s and l = "[]"]
  by (simp add: observed_def outcome_def)

section \<open>The shape of every log\<close>

text \<open>
  Every call leaves a log of the shapes above. The proof follows the loop: induction on
  the cases, for every position, state and log the loop may start with.
\<close>

lemma logged_shape:
  "switchlike (unlogged ti) (unlogged tc) input (logged_cases n cases) (logged_default d)
       (logged_predicate p) (s, start) = (out, s', log) \<Longrightarrow>
   \<exists>log'. log = start @ log' \<and> run_shape ti tc p input n cases out log'"
proof (induction cases arbitrary: n s start)
  case Nil
  then have "out = fst (d s)" and "log = start @ [DefaultCall out]"
    by (auto simp: logged_default_call)
  then show ?case by (auto intro: run_shape.default_called)
next
  case (Cons c cases)
  obtain r1 s1 where c1: "ti (fst c) s = (r1, s1)" by (cases "ti (fst c) s")
  show ?case
  proof (cases r1)
    case (Inl e)
    with c1 Cons.prems have "out = Inl e" and "log = start"
      by (auto simp: unlogged_call)
    moreover have "conversion_throws ti tc (fst c) e"
      using c1 Inl by (auto simp: conversion_throws_def intro: exI [of _ s])
    ultimately show ?thesis by (auto intro: run_shape.conversion_threw)
  next
    case x: (Inr x)
    obtain r2 s2 where c2: "tc x s1 = (r2, s2)" by (cases "tc x s1")
    have first: "fst (ti (fst c) s) = Inr x" using c1 x by simp
    show ?thesis
    proof (cases r2)
      case (Inl e)
      with c1 x c2 Cons.prems have "out = Inl e" and "log = start"
        by (auto simp: unlogged_call)
      moreover have "fst (tc x s1) = Inl e" using c2 Inl by simp
      with first have "conversion_throws ti tc (fst c) e"
        unfolding conversion_throws_def by blast
      ultimately show ?thesis by (auto intro: run_shape.conversion_threw)
    next
      case b: (Inr b)
      have "fst (tc x s1) = Inr b" using c2 b by simp
      with first have conv: "converted ti tc (fst c) b"
        unfolding converted_def by blast
      obtain r3 s3 where c3: "p input b s2 = (r3, s3)" by (cases "p input b s2")
      show ?thesis
      proof (cases r3)
        case (Inl e)
        with c1 x c2 b c3 Cons.prems have "out = Inl e"
          and "log = start @ [PredCall input b (Inl e)]"
          by (auto simp: unlogged_call logged_predicate_call)
        moreover have "fst (p input b s2) = Inl e" using c3 Inl by simp
        with conv have "run_shape ti tc p input n (c # cases) (Inl e) [PredCall input b (Inl e)]"
          by (rule run_shape.predicate_threw)
        ultimately show ?thesis by blast
      next
        case (Inr m)
        show ?thesis
        proof (cases m)
          case True
          with Inr c1 x c2 b c3 Cons.prems
          have "log = start @ [PredCall input b (Inr True), CaseCall n out]"
            by (auto simp: unlogged_call logged_predicate_call logged_case_call)
          moreover have "fst (p input b s2) = Inr True" using c3 Inr True by simp
          with conv have "run_shape ti tc p input n (c # cases) out
              [PredCall input b (Inr True), CaseCall n out]"
            by (rule run_shape.matched)
          ultimately show ?thesis by blast
        next
          case False
          with Inr c1 x c2 b c3 Cons.prems
          have "switchlike (unlogged ti) (unlogged tc) input (logged_cases (Suc n) cases)
              (logged_default d) (logged_predicate p)
              (s3, start @ [PredCall input b (Inr False)]) = (out, s', log)"
            by (auto simp: unlogged_call logged_predicate_call)
          from Cons.IH [OF this] obtain log' where
            log: "log = (start @ [PredCall input b (Inr False)]) @ log'" and
            shape: "run_shape ti tc p input (Suc n) cases out log'"
            by blast
          have "fst (p input b s2) = Inr False" using c3 Inr False by simp
          with conv have "run_shape ti tc p input n (c # cases) out
              (PredCall input b (Inr False) # log')"
            using shape by (rule run_shape.rejected_one)
          with log show ?thesis by simp
        qed
      qed
    qed
  qed
qed

lemma calls_shape:
  "run_shape ti tc p input 0 cases (outcome ti tc input cases d p s)
     (calls ti tc input cases d p s)"
  using logged_shape [where ti = ti and tc = tc and input = input and n = 0 and cases = cases
      and d = d and p = p and s = s and start = "[]" and out = "outcome ti tc input cases d p s"
      and s' = "snd (switchlike ti tc input cases d p s)"
      and log = "calls ti tc input cases d p s"]
  by (simp add: observed_eq [unfolded observed_def])

text \<open>Facts about the rejected prefix of a log.\<close>

lemma filter_rejected [simp]: "filter is_producer_call (rejected input bs) = []"
  by (simp add: rejected_def)

lemma filter_not_rejected [simp]:
  "filter (\<lambda>ev. \<not> is_producer_call ev) (rejected input bs) = rejected input bs"
  by (simp add: rejected_def)

lemma length_rejected [simp]: "length (rejected input bs) = length bs"
  by (simp add: rejected_def)

lemma rejected_Nil [simp]: "rejected input [] = []"
  by (simp add: rejected_def)

lemma rejected_Cons [simp]:
  "rejected input (b # bs) = PredCall input b (Inr False) # rejected input bs"
  by (simp add: rejected_def)

lemma in_rejected:
  "ev \<in> set (rejected input bs) \<Longrightarrow> \<exists>b. ev = PredCall input b (Inr False)"
  by (auto simp: rejected_def)

text \<open>
  The log is sound: the outcome recorded for a predicate call is the outcome of the
  caller's predicate on those arguments, in the state the call was made in.
\<close>

lemma calls_predicate_sound:
  assumes "PredCall a b out \<in> set (calls ti tc input cases d p s)"
  shows "\<exists>t. out = fst (p a b t)"
proof -
  have "run_shape ti tc p input n cases r log \<Longrightarrow> PredCall a b out \<in> set log \<Longrightarrow>
      \<exists>t. out = fst (p a b t)" for n r log
    by (induction rule: run_shape.induct) (auto intro: sym)
  from this [OF calls_shape assms] show ?thesis .
qed

text \<open>When the conversions are functions of the value, a key converts to one value.\<close>

lemma converted_pure [simp]: "converted (pure1 ti) (pure1 tc) k b = (b = tc (ti k))"
  by (auto simp: converted_def pure1_def)

lemma conversion_throws_pure [simp]: "\<not> conversion_throws (pure1 ti) (pure1 tc) k e"
  by (simp add: conversion_throws_def pure1_def)

lemma list_all2_converted_pure:
  "list_all2 (converted (pure1 ti) (pure1 tc)) ks bs = (bs = map (\<lambda>k. tc (ti k)) ks)"
  by (induction ks arbitrary: bs) (auto simp: list_all2_Cons1)

lemma rejected_map: "rejected input (map (\<lambda>k. tc (ti k)) ks) = rejections ti tc input ks"
  by (simp add: rejected_def rejections_def comp_def)

section \<open>What the shapes say\<close>

text \<open>
  Each of the following is proved by induction on the shape of the log. A call that threw
  is the last call of the log, and its exception is the outcome.
\<close>

lemma shape_thrown_last:
  "run_shape ti tc p input n cases out log \<Longrightarrow> m < length log \<Longrightarrow>
   thrown (log ! m) = Some e \<Longrightarrow> Suc m = length log \<and> out = Inl e"
proof (induction arbitrary: m rule: run_shape.induct)
  case (default_called n out)
  then show ?case by (cases out) auto
next
  case (conversion_threw c e' n cases)
  then show ?case by simp
next
  case (predicate_threw c b t e' n cases)
  then show ?case by auto
next
  case (matched c b t n cases out)
  then show ?case by (cases m; cases out) auto
next
  case (rejected_one c b t n cases out log)
  then show ?case by (cases m) auto
qed

text \<open>A log with a predicate call that returned true ends with it and its producer.\<close>

lemma shape_match:
  "run_shape ti tc p input n cases out log \<Longrightarrow> PredCall a b' (Inr True) \<in> set log \<Longrightarrow>
   \<exists>j bs b. j < length cases \<and> length bs = j \<and>
     list_all2 (converted ti tc) (take j (map fst cases)) bs \<and>
     converted ti tc (fst (cases ! j)) b \<and>
     log = rejected input bs @ [PredCall input b (Inr True), CaseCall (n + j) out]"
proof (induction rule: run_shape.induct)
  case (default_called n out)
  then show ?case by simp
next
  case (conversion_threw c e n cases)
  then show ?case by simp
next
  case (predicate_threw c b t e n cases)
  then show ?case by simp
next
  case (matched c b t n cases out)
  have "0 < length (c # cases) \<and> length ([] :: 'b list) = 0 \<and>
     list_all2 (converted ti tc) (take 0 (map fst (c # cases))) [] \<and>
     converted ti tc (fst ((c # cases) ! 0)) b \<and>
     [PredCall input b (Inr True), CaseCall n out]
       = rejected input [] @ [PredCall input b (Inr True), CaseCall (n + 0) out]"
    using matched by simp
  then show ?case by blast
next
  case (rejected_one c b t n cases out log)
  then have "PredCall a b' (Inr True) \<in> set log" by simp
  with rejected_one.IH obtain j bs b1 where j: "j < length cases" and "length bs = j"
    and "list_all2 (converted ti tc) (take j (map fst cases)) bs"
    and "converted ti tc (fst (cases ! j)) b1"
    and "log = rejected input bs @ [PredCall input b1 (Inr True), CaseCall (Suc n + j) out]"
    by blast
  with rejected_one.hyps(1)
  have "Suc j < length (c # cases) \<and> length (b # bs) = Suc j \<and>
     list_all2 (converted ti tc) (take (Suc j) (map fst (c # cases))) (b # bs) \<and>
     converted ti tc (fst ((c # cases) ! Suc j)) b1 \<and>
     PredCall input b (Inr False) # log
       = rejected input (b # bs) @ [PredCall input b1 (Inr True), CaseCall (n + Suc j) out]"
    by simp
  then show ?case by blast
qed

text \<open>The arguments of the predicate call at position \<open>m\<close>.\<close>

lemma shape_arguments:
  "run_shape ti tc p input n cases out log \<Longrightarrow> m < length log \<Longrightarrow>
   log ! m = PredCall a b r \<Longrightarrow>
   m < length cases \<and> a = input \<and> converted ti tc (fst (cases ! m)) b"
proof (induction arbitrary: m rule: run_shape.induct)
  case (default_called n out)
  then show ?case by simp
next
  case (conversion_threw c e n cases)
  then show ?case by simp
next
  case (predicate_threw c b t e n cases)
  then show ?case by simp
next
  case (matched c b t n cases out)
  then show ?case by (cases m) auto
next
  case (rejected_one c b t n cases out log)
  then show ?case by (cases m) auto
qed




section \<open>The claims\<close>

subsection \<open>Exactly one producer\<close>




subsection \<open>First match wins\<close>





subsection \<open>The empty case sequence\<close>

text \<open>
  C5: for every input, default producer and predicate, a call with an empty case sequence
  is the call of the default producer: it invokes the default producer, nothing else, and
  its outcome is the default producer's; for the input 7, no cases and a default producer
  that returns 42, the call returns 42.
\<close>

theorem empty_cases_invoke_default:
  "switchlike to_input to_case input [] default_func predicate s = default_func s \<and>
   outcome to_input to_case input [] default_func predicate s = fst (default_func s) \<and>
   calls to_input to_case input [] default_func predicate s = [DefaultCall (fst (default_func s))] \<and>
   switchlike to_input' to_case' (7::int) [] (\<lambda>t. (Inr (42::int), t)) predicate' s' = (Inr 42, s')"
  by (simp add: outcome_def calls_def observed_def logged_default_call)

subsection \<open>Short-circuit evaluation\<close>

text \<open>
  C3: for every call in which some case matches (some predicate call of the call returns
  true), the predicate is evaluated once per case, from left to right, on the cases up to
  and including the first one for which it returns true (say at position \<open>j\<close>): it
  returns false on those before \<open>j\<close>; then the producer of the case at \<open>j\<close> is invoked
  and the call ends with its outcome. The log holds nothing else: no predicate and no
  producer of a later case, and no call of the default producer. The first part is for
  any conversions, the second for conversions that are functions of the value, where the
  keys in the log are the converted keys of the cases.
\<close>

theorem short_circuit_at_first_match:
  "(PredCall a b (Inr True) \<in> set (calls to_input to_case input cases default_func predicate s) \<longrightarrow>
      (\<exists>j bs b'. j < length cases \<and> length bs = j \<and>
         list_all2 (converted to_input to_case) (take j (map fst cases)) bs \<and>
         converted to_input to_case (fst (cases ! j)) b' \<and>
         calls to_input to_case input cases default_func predicate s =
           rejected input bs
           @ [PredCall input b' (Inr True),
              CaseCall j (outcome to_input to_case input cases default_func predicate s)]) \<and>
      (\<forall>out. DefaultCall out \<notin>
         set (calls to_input to_case input cases default_func predicate s))) \<and>
   (PredCall a1 b1 (Inr True) \<in>
        set (calls (pure1 f) (pure1 g) input1 cases1 default_func1 predicate1 s1) \<longrightarrow>
      (\<exists>j. j < length cases1 \<and>
         calls (pure1 f) (pure1 g) input1 cases1 default_func1 predicate1 s1 =
           rejections f g input1 (take j (map fst cases1))
           @ [PredCall input1 (g (f (fst (cases1 ! j)))) (Inr True),
              CaseCall j (outcome (pure1 f) (pure1 g) input1 cases1 default_func1 predicate1 s1)]) \<and>
      (\<forall>out. DefaultCall out \<notin>
         set (calls (pure1 f) (pure1 g) input1 cases1 default_func1 predicate1 s1)))"
proof (intro conjI impI)
  let ?log = "calls to_input to_case input cases default_func predicate s"
  let ?out = "outcome to_input to_case input cases default_func predicate s"
  assume "PredCall a b (Inr True) \<in> set ?log"
  with calls_shape have "\<exists>j bs b'. j < length cases \<and> length bs = j \<and>
         list_all2 (converted to_input to_case) (take j (map fst cases)) bs \<and>
         converted to_input to_case (fst (cases ! j)) b' \<and>
         ?log = rejected input bs @ [PredCall input b' (Inr True), CaseCall (0 + j) ?out]"
    by (rule shape_match)
  then show general: "\<exists>j bs b'. j < length cases \<and> length bs = j \<and>
         list_all2 (converted to_input to_case) (take j (map fst cases)) bs \<and>
         converted to_input to_case (fst (cases ! j)) b' \<and>
         ?log = rejected input bs @ [PredCall input b' (Inr True), CaseCall j ?out]"
    by simp
  then show "\<forall>out. DefaultCall out \<notin> set ?log"
    by (auto dest: in_rejected)
next
  let ?log = "calls (pure1 f) (pure1 g) input1 cases1 default_func1 predicate1 s1"
  let ?out = "outcome (pure1 f) (pure1 g) input1 cases1 default_func1 predicate1 s1"
  assume h: "PredCall a1 b1 (Inr True) \<in> set ?log"
  from shape_match [OF calls_shape h] obtain j where j: "j < length cases1" and
    log: "?log = rejected input1 (map (\<lambda>k. g (f k)) (take j (map fst cases1)))
           @ [PredCall input1 (g (f (fst (cases1 ! j)))) (Inr True), CaseCall j ?out]"
    by (auto simp: list_all2_converted_pure)
  then show pure: "\<exists>j. j < length cases1 \<and>
         ?log = rejections f g input1 (take j (map fst cases1))
           @ [PredCall input1 (g (f (fst (cases1 ! j)))) (Inr True), CaseCall j ?out]"
    by (auto simp: rejected_map)
  show "\<forall>out. DefaultCall out \<notin> set ?log"
    by (subst log) (auto dest: in_rejected)
qed

theorem short_circuit_at_first_match_witness:
  "PredCall (1::int) (1::int) (Inr True) \<in> set
     (calls (pure1 id) (pure1 id) (1::int)
        [(0::int, \<lambda>s::unit. (Inr (10::int), s)), (1, \<lambda>s. (Inr 20, s)), (1, \<lambda>s. (Inr 30, s))]
        (\<lambda>s. (Inr (- 1), s))
        (pure2 (\<lambda>a b. a = b) :: int \<Rightarrow> int \<Rightarrow> (unit, string, bool) callable) ()) \<and>
   calls (pure1 id) (pure1 id) (1::int)
        [(0::int, \<lambda>s::unit. (Inr (10::int), s)), (1, \<lambda>s. (Inr 20, s)), (1, \<lambda>s. (Inr 30, s))]
        (\<lambda>s. (Inr (- 1), s))
        (pure2 (\<lambda>a b. a = b) :: int \<Rightarrow> int \<Rightarrow> (unit, string, bool) callable) ()
     = [PredCall 1 0 (Inr False), PredCall 1 1 (Inr True), CaseCall 1 (Inr 20)]"
proof -
  let ?log = "calls (pure1 id) (pure1 id) (1::int)
        [(0::int, \<lambda>s::unit. (Inr (10::int), s)), (1, \<lambda>s. (Inr 20, s)), (1, \<lambda>s. (Inr 30, s))]
        (\<lambda>s. (Inr (- 1), s))
        (pure2 (\<lambda>a b. a = b) :: int \<Rightarrow> int \<Rightarrow> (unit, string, bool) callable) ()"
  have log: "?log = [PredCall 1 0 (Inr False), PredCall 1 1 (Inr True), CaseCall 1 (Inr 20)]"
    by (simp add: calls_def observed_def unlogged_call logged_predicate_call logged_case_call
        pure1_def pure2_def)
  have h: "PredCall (1::int) (1::int) (Inr True) \<in> set ?log"
    by (simp add: log)
  from short_circuit_at_first_match [THEN conjunct1, THEN mp, OF h]
    short_circuit_at_first_match [THEN conjunct2, THEN mp, OF h] log h
  show ?thesis by simp
qed

subsection \<open>The default predicate\<close>

text \<open>
  With the default predicate a case is selected only if the key, as it comes back from
  the two conversions of the loop, compares equal to the input.
\<close>

lemma selected_case_matches:
  assumes "CaseCall j out \<in> set (calls (pure1 f) (pure1 g) input cases d
      (default_predicate (pure2 op)) s)"
  shows "j < length cases \<and> op (g (f (fst (cases ! j)))) input"
proof -
  let ?p = "default_predicate (pure2 op)"
  let ?log = "calls (pure1 f) (pure1 g) input cases d ?p s"
  have shape: "run_shape (pure1 f) (pure1 g) ?p input 0 cases
      (outcome (pure1 f) (pure1 g) input cases d ?p s) ?log"
    by (rule calls_shape)
  have "run_shape (pure1 f) (pure1 g) ?p input n cases r log \<Longrightarrow>
      CaseCall j out \<in> set log \<Longrightarrow>
      n \<le> j \<and> j - n < length cases \<and> op (g (f (fst (cases ! (j - n))))) input" for n r log
  proof (induction rule: run_shape.induct)
    case (matched c b t n cases out)
    then show ?case by (auto simp: default_predicate_def pure2_def)
  next
    case (rejected_one c b t n cases out log)
    then have "Suc n \<le> j \<and> j - Suc n < length cases \<and>
        op (g (f (fst (cases ! (j - Suc n))))) input"
      by simp
    then show ?case by (auto simp: Suc_diff_le)
  qed simp_all
  from this [OF shape assms] show ?thesis by simp
qed

text \<open>
  When \<^verbatim>\<open>input_type\<close> and \<^verbatim>\<open>case_type\<close> are one type and the conversions are copies, a
  case is selected if and only if its key compares equal to the input.
\<close>

lemma default_predicate_same_type:
  "calls (pure1 id) (pure1 id) input [(k, f)] d (default_predicate (pure2 op)) s =
     (if op k input then [PredCall input k (Inr True), CaseCall 0 (fst (f s))]
      else [PredCall input k (Inr False), DefaultCall (fst (d s))])"
  by (simp add: calls_def observed_def unlogged_call logged_predicate_call logged_case_call
      logged_default_call default_predicate_def pure1_def pure2_def)

text \<open>
  C4: "when the predicate argument is omitted, a case is selected if and only if its key
  is equal (by \<^verbatim>\<open>operator==\<close>) to the input". The documentation of the function says the same
  ("the default will compare the key to \<^verbatim>\<open>input\<close> using \<^verbatim>\<open>==\<close>", and the input and the keys
  "don't have to be of the same type"), but the loop variable is declared with the
  input's type, so the key that is compared is the key converted to \<^verbatim>\<open>input_type\<close> and
  back. For \<^verbatim>\<open>switchlike<unsigned char, int, int>(1, {{257, [](){ return 1; }}}, [](){ return 0; })\<close>
  the conversions are the truncation of a 32-bit integer to 8 bits and the extension of
  8 bits to 32, and \<^verbatim>\<open>b == a\<close> compares the 32-bit key with the promoted input: the case
  with the key 257 is selected for the input 1, although \<^verbatim>\<open>257 == 1\<close> is false.
\<close>

theorem default_predicate_compares_converted_key:
  "calls (pure1 ucast) (pure1 ucast) (1 :: 8 word)
      [(257 :: 32 word, \<lambda>s::unit. (Inr (1::int), s))] (\<lambda>s. (Inr 0, s))
      (default_predicate (pure2 (\<lambda>(b :: 32 word) (a :: 8 word). b = ucast a))
         :: 8 word \<Rightarrow> 32 word \<Rightarrow> (unit, string, bool) callable) ()
     = [PredCall 1 1 (Inr True), CaseCall 0 (Inr 1)] \<and>
   switchlike (pure1 ucast) (pure1 ucast) (1 :: 8 word)
      [(257 :: 32 word, \<lambda>s::unit. (Inr (1::int), s))] (\<lambda>s. (Inr 0, s))
      (default_predicate (pure2 (\<lambda>(b :: 32 word) (a :: 8 word). b = ucast a))
         :: 8 word \<Rightarrow> 32 word \<Rightarrow> (unit, string, bool) callable) ()
     = (Inr 1, ()) \<and>
   (257 :: 32 word) \<noteq> ucast (1 :: 8 word)"
  by (simp add: calls_def observed_def unlogged_call logged_predicate_call logged_case_call
      default_predicate_def pure1_def pure2_def)

text \<open>
  C9: the default predicate, called with the input \<open>a\<close> and the key \<open>b\<close>, evaluates
  \<^verbatim>\<open>operator==\<close> once, with the key as the left operand and the input as the right
  operand, and returns what the operator returns; for an operator without effects the
  result is \<open>op b a\<close>, and when the operator is symmetric (\<open>op k i = op' i k\<close>, where
  \<open>op'\<close> is the operator with the input on the left) this is the result of
  \<open>op' a b\<close>.
\<close>

theorem default_predicate_key_on_the_left:
  "snd (snd (default_predicate (logged_eq eq) a b (s, l))) = l @ [(b, a)] \<and>
   fst (default_predicate (logged_eq eq) a b (s, l)) = fst (eq b a s) \<and>
   default_predicate (pure2 op) a b t = (Inr (op b a), t) \<and>
   ((\<forall>k i. op k i = op' i k) \<longrightarrow> default_predicate (pure2 op) a b t = pure2 op' a b t)"
  by (simp add: default_predicate_def logged_eq_def pure2_def split: prod.splits)

theorem default_predicate_key_on_the_left_witness:
  "(\<forall>(k::int) (i::int). (k = i) = (i = k)) \<and>
   (default_predicate (pure2 (\<lambda>(k::int) (i::int). k = i)) 1 2 ()
      :: (string + bool) \<times> unit) = pure2 (\<lambda>(i::int) (k::int). i = k) 1 2 ()"
proof -
  have h: "\<forall>(k::int) (i::int). (k = i) = (i = k)" by auto
  from default_predicate_key_on_the_left [where op = "\<lambda>(k::int) (i::int). k = i"
      and op' = "\<lambda>(i::int) (k::int). i = k" and a = 1 and b = 2 and t = "()",
      THEN conjunct2, THEN conjunct2, THEN conjunct2, THEN mp, OF h] h
  show ?thesis by blast
qed

text \<open>The order of the operands is observable for an operator that is not symmetric.\<close>

lemma key_on_the_left_observable:
  "(default_predicate (pure2 (\<lambda>(k::int) (i::int). k < i)) 1 0 () :: (string + bool) \<times> unit)
     = (Inr True, ())"
  by (simp add: default_predicate_def pure2_def)

subsection \<open>Exceptions and termination\<close>

text \<open>
  C7: an exception thrown by a call of the predicate or of a producer (a case's or the
  default producer) is the outcome of the call of \<open>switchlike\<close>, unchanged, and the call
  that threw is the last call \<open>switchlike\<close> makes: no predicate and no producer is
  invoked after it.
\<close>

theorem exceptions_propagate:
  assumes "n < length (calls to_input to_case input cases default_func predicate s)"
    and "thrown (calls to_input to_case input cases default_func predicate s ! n) = Some e"
  shows "Suc n = length (calls to_input to_case input cases default_func predicate s) \<and>
         outcome to_input to_case input cases default_func predicate s = Inl e \<and>
         fst (switchlike to_input to_case input cases default_func predicate s) = Inl e"
proof -
  from calls_shape assms
  have "Suc n = length (calls to_input to_case input cases default_func predicate s) \<and>
      outcome to_input to_case input cases default_func predicate s = Inl e"
    by (rule shape_thrown_last)
  then show ?thesis by (simp add: outcome_eq)
qed

theorem exceptions_propagate_witness:
  "calls (pure1 id) (pure1 id) (1::int)
      [(1::int, \<lambda>s::unit. (Inl ''thrown by the producer'', s))]
      (\<lambda>s. (Inr (- 1 :: int), s))
      (pure2 (\<lambda>a b. a = b) :: int \<Rightarrow> int \<Rightarrow> (unit, string, bool) callable) ()
     = [PredCall 1 1 (Inr True), CaseCall 0 (Inl ''thrown by the producer'')] \<and>
   outcome (pure1 id) (pure1 id) (1::int)
      [(1::int, \<lambda>s::unit. (Inl ''thrown by the producer'', s))]
      (\<lambda>s. (Inr (- 1 :: int), s))
      (pure2 (\<lambda>a b. a = b) :: int \<Rightarrow> int \<Rightarrow> (unit, string, bool) callable) ()
     = Inl ''thrown by the producer''"
proof -
  let ?log = "calls (pure1 id) (pure1 id) (1::int)
      [(1::int, \<lambda>s::unit. (Inl ''thrown by the producer'', s))]
      (\<lambda>s. (Inr (- 1 :: int), s))
      (pure2 (\<lambda>a b. a = b) :: int \<Rightarrow> int \<Rightarrow> (unit, string, bool) callable) ()"
  have log: "?log = [PredCall 1 1 (Inr True), CaseCall 0 (Inl ''thrown by the producer'')]"
    by (simp add: calls_def observed_def unlogged_call logged_predicate_call logged_case_call
        pure1_def pure2_def)
  have h1: "1 < length ?log" by (simp add: log)
  have h2: "thrown (?log ! 1) = Some ''thrown by the producer''" by (simp add: log)
  from exceptions_propagate [OF h1 h2] log show ?thesis by simp
qed



subsection \<open>The key that the predicate receives\<close>

text \<open>
  C10: the loop variable has a key of the input's type, so the predicate receives, for
  the case at position \<open>n\<close>, the input and a value that the conversion to the input's
  type and the conversion back to the key's type make of the key; when the conversions
  are functions of the value it is the key converted to the input's type and back, and
  when the two types are the same type (the conversions are copies, \<open>pure1 id\<close>) it is
  the key of the case itself.
\<close>

theorem predicate_sees_converted_key:
  "(\<forall>n a b out.
      n < length (calls to_input to_case input cases default_func predicate s) \<and>
      calls to_input to_case input cases default_func predicate s ! n = PredCall a b out \<longrightarrow>
      n < length cases \<and> a = input \<and> converted to_input to_case (fst (cases ! n)) b) \<and>
   (\<forall>n a b out.
      n < length (calls (pure1 f) (pure1 g) input1 cases1 default_func1 predicate1 s1) \<and>
      calls (pure1 f) (pure1 g) input1 cases1 default_func1 predicate1 s1 ! n = PredCall a b out \<longrightarrow>
      n < length cases1 \<and> a = input1 \<and> b = g (f (fst (cases1 ! n)))) \<and>
   (\<forall>n a b out.
      n < length (calls (pure1 id) (pure1 id) input' cases' default_func' predicate' s') \<and>
      calls (pure1 id) (pure1 id) input' cases' default_func' predicate' s' ! n = PredCall a b out \<longrightarrow>
      n < length cases' \<and> a = input' \<and> b = fst (cases' ! n))"
proof -
  have general: "\<forall>n a b out.
      n < length (calls to_input to_case input cases default_func predicate s) \<and>
      calls to_input to_case input cases default_func predicate s ! n = PredCall a b out \<longrightarrow>
      n < length cases \<and> a = input \<and> converted to_input to_case (fst (cases ! n)) b"
  proof (intro allI impI)
    fix n a b out
    assume h: "n < length (calls to_input to_case input cases default_func predicate s) \<and>
      calls to_input to_case input cases default_func predicate s ! n = PredCall a b out"
    from shape_arguments [OF calls_shape conjunct1 [OF h] conjunct2 [OF h]]
    show "n < length cases \<and> a = input \<and> converted to_input to_case (fst (cases ! n)) b" .
  qed
  have by_value: "\<forall>n a b out.
      n < length (calls (pure1 f) (pure1 g) input1 cases1 default_func1 predicate1 s1) \<and>
      calls (pure1 f) (pure1 g) input1 cases1 default_func1 predicate1 s1 ! n = PredCall a b out \<longrightarrow>
      n < length cases1 \<and> a = input1 \<and> b = g (f (fst (cases1 ! n)))"
  proof (intro allI impI)
    fix n a b out
    assume h: "n < length (calls (pure1 f) (pure1 g) input1 cases1 default_func1 predicate1 s1) \<and>
      calls (pure1 f) (pure1 g) input1 cases1 default_func1 predicate1 s1 ! n = PredCall a b out"
    from shape_arguments [OF calls_shape conjunct1 [OF h] conjunct2 [OF h]]
    show "n < length cases1 \<and> a = input1 \<and> b = g (f (fst (cases1 ! n)))" by simp
  qed
  have same_type: "\<forall>n a b out.
      n < length (calls (pure1 id) (pure1 id) input' cases' default_func' predicate' s') \<and>
      calls (pure1 id) (pure1 id) input' cases' default_func' predicate' s' ! n = PredCall a b out \<longrightarrow>
      n < length cases' \<and> a = input' \<and> b = fst (cases' ! n)"
  proof (intro allI impI)
    fix n a b out
    assume h: "n < length (calls (pure1 id) (pure1 id) input' cases' default_func' predicate' s') \<and>
      calls (pure1 id) (pure1 id) input' cases' default_func' predicate' s' ! n = PredCall a b out"
    from shape_arguments [OF calls_shape conjunct1 [OF h] conjunct2 [OF h]]
    show "n < length cases' \<and> a = input' \<and> b = fst (cases' ! n)" by simp
  qed
  from general by_value same_type show ?thesis by blast
qed

theorem predicate_sees_converted_key_witness:
  "calls (pure1 ucast) (pure1 ucast) (1 :: 8 word)
      [(257 :: 32 word, \<lambda>s::unit. (Inr (1::int), s))] (\<lambda>s. (Inr 0, s))
      (pure2 (\<lambda>(a :: 8 word) (b :: 32 word). b = 257)
         :: 8 word \<Rightarrow> 32 word \<Rightarrow> (unit, string, bool) callable) ()
     = [PredCall 1 (ucast (ucast (257 :: 32 word) :: 8 word)) (Inr False), DefaultCall (Inr 0)] \<and>
   (ucast (ucast (257 :: 32 word) :: 8 word) :: 32 word) = 1 \<and>
   calls (pure1 id) (pure1 id) (1 :: int) [(257 :: int, \<lambda>s::unit. (Inr (1::int), s))]
      (\<lambda>s. (Inr 0, s))
      (pure2 (\<lambda>(a :: int) (b :: int). b = 257) :: int \<Rightarrow> int \<Rightarrow> (unit, string, bool) callable) ()
     = [PredCall 1 257 (Inr True), CaseCall 0 (Inr 1)]"
proof -
  let ?p = "pure2 (\<lambda>(a :: 8 word) (b :: 32 word). b = 257)
         :: 8 word \<Rightarrow> 32 word \<Rightarrow> (unit, string, bool) callable"
  let ?q = "pure2 (\<lambda>(a :: int) (b :: int). b = 257) :: int \<Rightarrow> int \<Rightarrow> (unit, string, bool) callable"
  let ?log = "calls (pure1 ucast) (pure1 ucast) (1 :: 8 word)
      [(257 :: 32 word, \<lambda>s::unit. (Inr (1::int), s))] (\<lambda>s. (Inr 0, s)) ?p ()"
  let ?log' = "calls (pure1 id) (pure1 id) (1 :: int) [(257 :: int, \<lambda>s::unit. (Inr (1::int), s))]
      (\<lambda>s. (Inr 0, s)) ?q ()"
  have log: "?log = [PredCall 1 1 (Inr False), DefaultCall (Inr 0)]"
    by (simp add: calls_def observed_def unlogged_call logged_predicate_call logged_default_call
        pure1_def pure2_def)
  have log': "?log' = [PredCall 1 257 (Inr True), CaseCall 0 (Inr 1)]"
    by (simp add: calls_def observed_def unlogged_call logged_predicate_call logged_case_call
        pure1_def pure2_def)
  have h: "0 < length ?log \<and> ?log ! 0 = PredCall 1 1 (Inr False)"
    by (simp add: log)
  have h': "0 < length ?log' \<and> ?log' ! 0 = PredCall 1 257 (Inr True)"
    by (simp add: log')
  from predicate_sees_converted_key [THEN conjunct2, THEN conjunct1,
      THEN spec, THEN spec, THEN spec, THEN spec, THEN mp, OF h]
  have "(1 :: 32 word) = ucast (ucast (fst ([(257 :: 32 word, \<lambda>s::unit. (Inr (1::int), s))] ! 0)) :: 8 word)"
    by simp
  moreover
  from predicate_sees_converted_key [THEN conjunct2, THEN conjunct2,
      THEN spec, THEN spec, THEN spec, THEN spec, THEN mp, OF h']
  have "(257 :: int) = fst ([(257 :: int, \<lambda>s::unit. (Inr (1::int), s))] ! 0)"
    by simp
  ultimately show ?thesis using log log' by simp
qed

section \<open>The test of the repository\<close>

text \<open>
  The three calls of \<^verbatim>\<open>NAMED_TEST(switchlike, 3)\<close>. The first omits the default producer
  (the result type is \<^verbatim>\<open>void\<close>) and the predicate; the second passes the predicate
  \<^verbatim>\<open>a % b == 0\<close>, which the test calls on the operands 1 and 5 only (for operands
  that are not negative and a divisor that is not 0, \<^verbatim>\<open>%\<close> is \<open>mod\<close>); the third
  returns a value.
\<close>

lemma test_string:
  "calls (pure1 id) (pure1 id) ''foo'' [(''bar'', wrong), (''foo'', right)] default_default_func
      (default_predicate (pure2 (\<lambda>b a. b = a))) s
     = [PredCall ''foo'' ''bar'' (Inr False), PredCall ''foo'' ''foo'' (Inr True),
        CaseCall 1 (fst (right s))]"
  by (simp add: calls_def observed_def unlogged_call logged_predicate_call logged_case_call
      default_predicate_def pure1_def pure2_def)

lemma test_int:
  "calls (pure1 id) (pure1 id) (1::int) [(5::int, wrong)] right
      (pure2 (\<lambda>a b. a mod b = 0)) s
     = [PredCall 1 5 (Inr False), DefaultCall (fst (right s))]"
  by (simp add: calls_def observed_def unlogged_call logged_predicate_call logged_default_call
      pure1_def pure2_def)

lemma test_return_value:
  "switchlike (pure1 id) (pure1 id) (1::int) [(1::int, \<lambda>t. (Inr (5::int), t))]
      (\<lambda>t. (Inr (- 1), t)) (default_predicate (pure2 (\<lambda>b a. b = a))) s = (Inr 5, s)"
  by (simp add: default_predicate_def pure1_def pure2_def)

end
